theory Spec2Isabelle
  imports Complex_Main
begin

section \<open>Data model: numpy arrays as seen by \<open>geokit/_core/util.py\<close>\<close>

text \<open>
  The two routines verified here, \<open>scaleMatrix\<close> and \<open>KernelProcessor\<close>, work on
  two-dimensional numpy arrays. An array is modelled by its element type (64-bit integer
  or 64-bit float), its shape and its cells, a list of rows.

  A cell is a finite number or one of the three special values of IEEE arithmetic. A
  cell of an integer array is \<open>Fin\<close> of an integer in the 64-bit range; a finite cell of a
  float array is \<open>Fin\<close> of a number that the binary64 format represents. The two zeros of
  the format are not told apart (they compare equal, and the routines never divide by a
  cell).
\<close>

datatype dtype = IntT | FloatT

datatype scalar = Fin real | PInf | NInf | NaN

record ndarray =
  dtype :: dtype
  shape0 :: nat
  shape1 :: nat
  cells :: "scalar list list"

text \<open>
  The exceptions the two routines can raise. The first three are raised by the source
  itself: \<open>ValueError("scale must be integer types")\<close>,
  \<open>GeoKitError("Matrix can only be scaled down by a factor of it's dimensions")\<close> and
  \<open>GeoKitError("Dimensions must be scaled in the same direction")\<close>. The others are
  raised by numpy and by Python arithmetic underneath it: a value that cannot be
  broadcast to the shape it is assigned or added to, two blocks that cannot be
  concatenated, an integer index out of range, a division by zero, a number that does
  not fit the element type it is stored with (\<open>OverflowError\<close>), and a NaN stored as an
  integer (\<open>ValueError("cannot convert float NaN to integer")\<close>).
\<close>

datatype error =
    InvalidScaleType
  | NonFactorScaleError
  | InvalidScaleDirection
  | BroadcastError
  | ConcatenateError
  | IndexError
  | ZeroDivisionError
  | OverflowError
  | NanToIntegerError

text \<open>
  A Python number, an \<open>int\<close> or a \<open>float\<close>: the scale components, the edge value and the
  value a kernel returns are either.
\<close>

datatype pynum = PyInt int | PyFloat scalar

text \<open>The \<open>scale\<close> argument: one number for both axes, or a pair \<open>(yScale, xScale)\<close>.\<close>

datatype scale_arg = OneScale pynum | TwoScales pynum pynum

subsection \<open>Sequencing of fallible steps\<close>

definition bindE :: "error + 'a \<Rightarrow> ('a \<Rightarrow> error + 'b) \<Rightarrow> error + 'b" where
  "bindE m f = (case m of Inl e \<Rightarrow> Inl e | Inr x \<Rightarrow> f x)"

text \<open>A \<open>for\<close> loop over a list of indices whose body may raise: the first error ends it.\<close>

fun foldE :: "('i \<Rightarrow> 's \<Rightarrow> error + 's) \<Rightarrow> 'i list \<Rightarrow> 's \<Rightarrow> error + 's" where
  "foldE f [] s = Inr s"
| "foldE f (i # is) s = (case f i s of Inl e \<Rightarrow> Inl e | Inr s' \<Rightarrow> foldE f is s')"

subsection \<open>Binary64 arithmetic\<close>

text \<open>
  Rounding of a real number to the nearest binary64 number, ties to the even
  significand. \<open>ilog2 a\<close> is the exponent \<open>e\<close> with \<open>2 ^ e \<le> a < 2 ^ (e + 1)\<close>, found from
  the bit length of the integer part of \<open>a\<close> or of \<open>1 / a\<close>. Numbers of exponent \<open>e\<close> are
  multiples of \<open>2 ^ (e - 52)\<close>; below the exponent \<open>-1022\<close> the spacing stays
  \<open>2 ^ (-1074)\<close>. A rounded magnitude of \<open>2 ^ 1024\<close> or more is an infinity: that is
  an exponent of \<open>1024\<close> or more, or the exponent \<open>1023\<close> with the significand rounded up
  to \<open>2 ^ 53 = 9007199254740992\<close>.
\<close>

function bitlen :: "int \<Rightarrow> int" where
  "bitlen i = (if i \<le> 0 then 0 else 1 + bitlen (i div 2))"
  by auto
termination
  by (relation "measure nat") auto

declare bitlen.simps [simp del]

definition ilog2 :: "real \<Rightarrow> int" where
  "ilog2 a = (if 1 \<le> a then bitlen \<lfloor>a\<rfloor> - 1 else - bitlen (\<lceil>1 / a\<rceil> - 1))"

definition pow2 :: "int \<Rightarrow> real" where
  "pow2 e = (if 0 \<le> e then 2 ^ nat e else 1 / 2 ^ nat (- e))"

definition round_half_even :: "real \<Rightarrow> int" where
  "round_half_even t =
     (let n = \<lfloor>t\<rfloor>; d = t - of_int n
      in if d < 1 / 2 then n else if 1 / 2 < d then n + 1 else if even n then n else n + 1)"

definition round64 :: "real \<Rightarrow> scalar" where
  "round64 x =
     (if x = 0 then Fin 0
      else let a = \<bar>x\<bar>;
               e = max (ilog2 a) (- 1022);
               q = pow2 (e - 52);
               n = round_half_even (a / q)
           in if 1024 \<le> e \<or> (e = 1023 \<and> n = 9007199254740992)
              then (if 0 < x then PInf else NInf)
              else Fin (if 0 < x then of_int n * q else - (of_int n * q)))"

text \<open>A real number is representable when rounding leaves it as it is.\<close>

definition representable :: "real \<Rightarrow> bool" where
  "representable x \<longleftrightarrow> round64 x = Fin x"

text \<open>
  Addition, multiplication and division of binary64 values: the exact result, rounded,
  with the IEEE rules for infinities and NaN. A finite number divided by zero gives an
  infinity of the dividend's sign (the divisor is taken as \<open>+0\<close>).
\<close>

fun fadd :: "scalar \<Rightarrow> scalar \<Rightarrow> scalar" where
  "fadd (Fin x) (Fin y) = round64 (x + y)"
| "fadd NaN v = NaN"
| "fadd v NaN = NaN"
| "fadd PInf NInf = NaN"
| "fadd NInf PInf = NaN"
| "fadd PInf v = PInf"
| "fadd v PInf = PInf"
| "fadd NInf v = NInf"
| "fadd v NInf = NInf"

fun fmul :: "scalar \<Rightarrow> scalar \<Rightarrow> scalar" where
  "fmul (Fin x) (Fin y) = round64 (x * y)"
| "fmul NaN v = NaN"
| "fmul v NaN = NaN"
| "fmul PInf (Fin y) = (if y = 0 then NaN else if 0 < y then PInf else NInf)"
| "fmul NInf (Fin y) = (if y = 0 then NaN else if 0 < y then NInf else PInf)"
| "fmul (Fin x) PInf = (if x = 0 then NaN else if 0 < x then PInf else NInf)"
| "fmul (Fin x) NInf = (if x = 0 then NaN else if 0 < x then NInf else PInf)"
| "fmul PInf PInf = PInf"
| "fmul PInf NInf = NInf"
| "fmul NInf PInf = NInf"
| "fmul NInf NInf = PInf"

fun fdiv :: "scalar \<Rightarrow> scalar \<Rightarrow> scalar" where
  "fdiv (Fin x) (Fin y) =
     (if y = 0 then (if x = 0 then NaN else if 0 < x then PInf else NInf)
      else round64 (x / y))"
| "fdiv NaN v = NaN"
| "fdiv v NaN = NaN"
| "fdiv (Fin x) PInf = Fin 0"
| "fdiv (Fin x) NInf = Fin 0"
| "fdiv PInf (Fin y) = (if 0 \<le> y then PInf else NInf)"
| "fdiv NInf (Fin y) = (if 0 \<le> y then NInf else PInf)"
| "fdiv PInf v = NaN"
| "fdiv NInf v = NaN"

text \<open>The \<open>float\<close> of a Python number, as numpy takes it into float arithmetic.\<close>

fun py_float :: "pynum \<Rightarrow> scalar" where
  "py_float (PyInt i) = round64 (of_int i)"
| "py_float (PyFloat v) = v"

text \<open>The 64-bit integer range.\<close>

definition int64_range :: "int \<Rightarrow> bool" where
  "int64_range i \<longleftrightarrow> - (2 ^ 63) \<le> i \<and> i < 2 ^ 63"

subsection \<open>Array construction and element access\<close>

text \<open>\<open>tabulate t r c f\<close> is the \<open>r \<times> c\<close> array of type \<open>t\<close> whose cell \<open>(i, j)\<close> is \<open>f i j\<close>.\<close>

definition tabulate :: "dtype \<Rightarrow> nat \<Rightarrow> nat \<Rightarrow> (nat \<Rightarrow> nat \<Rightarrow> scalar) \<Rightarrow> ndarray" where
  "tabulate t r c f =
     \<lparr>dtype = t, shape0 = r, shape1 = c, cells = map (\<lambda>i. map (\<lambda>j. f i j) [0..<c]) [0..<r]\<rparr>"

definition cell :: "ndarray \<Rightarrow> nat \<Rightarrow> nat \<Rightarrow> scalar" where
  "cell m i j = cells m ! i ! j"

text \<open>An array is well formed when its cells agree with its shape.\<close>

definition wf_array :: "ndarray \<Rightarrow> bool" where
  "wf_array m \<longleftrightarrow> length (cells m) = shape0 m \<and> list_all (\<lambda>row. length row = shape1 m) (cells m)"

definition np_zeros :: "dtype \<Rightarrow> nat \<Rightarrow> nat \<Rightarrow> ndarray" where
  "np_zeros t r c = tabulate t r c (\<lambda>i j. Fin 0)"

definition np_ones :: "dtype \<Rightarrow> nat \<Rightarrow> nat \<Rightarrow> ndarray" where
  "np_ones t r c = tabulate t r c (\<lambda>i j. Fin 1)"

text \<open>
  Conversion of a cell on its way from an array of type \<open>src\<close> into one of type \<open>dst\<close>.
  An integer becomes the nearest float. A float becomes an integer by truncation towards
  zero; the source never does this to an array (\<open>scale_up\<close> copies between arrays of one
  type, and the padded array of \<open>KernelProcessor\<close> has the promoted type), and for a
  value that has no integer the most negative one stands in, as on x86-64.
\<close>

definition trunc :: "real \<Rightarrow> int" where
  "trunc x = (if 0 \<le> x then \<lfloor>x\<rfloor> else \<lceil>x\<rceil>)"

definition astype :: "dtype \<Rightarrow> dtype \<Rightarrow> scalar \<Rightarrow> scalar" where
  "astype src dst v =
     (if src = IntT \<and> dst = FloatT then (case v of Fin x \<Rightarrow> round64 x | _ \<Rightarrow> v)
      else if src = FloatT \<and> dst = IntT
           then (case v of Fin x \<Rightarrow> Fin (of_int (trunc x)) | _ \<Rightarrow> Fin (- (2 ^ 63)))
      else v)"

text \<open>
  A Python number stored into one cell of an array of type \<open>t\<close>, the conversion that
  \<open>output[yi,xi] = value\<close> performs. An \<open>int\<close> outside the 64-bit range, a \<open>float\<close> whose
  integer part is outside it and an infinity raise \<open>OverflowError\<close> when stored as an
  integer, a NaN raises \<open>ValueError\<close>; an \<open>int\<close> beyond the float range raises
  \<open>OverflowError\<close> when stored as a float.
\<close>

fun store_scalar :: "dtype \<Rightarrow> pynum \<Rightarrow> error + scalar" where
  "store_scalar IntT (PyInt i) =
     (if int64_range i then Inr (Fin (of_int i)) else Inl OverflowError)"
| "store_scalar IntT (PyFloat (Fin x)) =
     (if int64_range (trunc x) then Inr (Fin (of_int (trunc x))) else Inl OverflowError)"
| "store_scalar IntT (PyFloat NaN) = Inl NanToIntegerError"
| "store_scalar IntT (PyFloat v) = Inl OverflowError"
| "store_scalar FloatT (PyInt i) =
     (case round64 (of_int i) of Fin x \<Rightarrow> Inr (Fin x) | _ \<Rightarrow> Inl OverflowError)"
| "store_scalar FloatT (PyFloat v) = Inr v"

text \<open>
  The Python number that reading one cell gives (\<open>m[i, j]\<close> as a number): an \<open>int\<close> from
  an integer array, a \<open>float\<close> from a float array.
\<close>

definition item :: "dtype \<Rightarrow> scalar \<Rightarrow> pynum" where
  "item t v = (case t of
       IntT \<Rightarrow> PyInt (case v of Fin x \<Rightarrow> \<lfloor>x\<rfloor> | _ \<Rightarrow> 0)
     | FloatT \<Rightarrow> PyFloat v)"

text \<open>Type promotion of numpy for the two element types of the model.\<close>

definition promote :: "dtype \<Rightarrow> dtype \<Rightarrow> dtype" where
  "promote a b = (if a = FloatT \<or> b = FloatT then FloatT else IntT)"

fun pytype :: "pynum \<Rightarrow> dtype" where
  "pytype (PyInt i) = IntT"
| "pytype (PyFloat x) = FloatT"

subsection \<open>Slices and indices\<close>

text \<open>
  A slice \<open>start:stop:step\<close> with a positive step (the source uses no other); an omitted
  bound is \<open>None\<close>. Against an axis of length \<open>n\<close> Python adds \<open>n\<close> to a negative bound
  and clamps the result to \<open>0..n\<close>. Note that \<open>-0\<close> is \<open>0\<close>: the stop \<open>-size\<close> written
  with \<open>size = 0\<close> is the stop \<open>0\<close>, not the end of the axis.
\<close>

datatype pyslice = Slice "int option" "int option" nat

definition clamp_bound :: "int \<Rightarrow> nat \<Rightarrow> nat" where
  "clamp_bound i n = (if i < 0 then nat (max (i + int n) 0) else min (nat i) n)"

fun slice_start :: "pyslice \<Rightarrow> nat \<Rightarrow> nat" where
  "slice_start (Slice b e st) n = (case b of None \<Rightarrow> 0 | Some i \<Rightarrow> clamp_bound i n)"

fun slice_stop :: "pyslice \<Rightarrow> nat \<Rightarrow> nat" where
  "slice_stop (Slice b e st) n = (case e of None \<Rightarrow> n | Some i \<Rightarrow> clamp_bound i n)"

fun slice_step :: "pyslice \<Rightarrow> nat" where
  "slice_step (Slice b e st) = st"

text \<open>Number of selected positions, the selected positions, and the rank of a position.\<close>

definition slice_len :: "pyslice \<Rightarrow> nat \<Rightarrow> nat" where
  "slice_len s n = (slice_stop s n - slice_start s n + slice_step s - 1) div slice_step s"

definition slice_nth :: "pyslice \<Rightarrow> nat \<Rightarrow> nat \<Rightarrow> nat" where
  "slice_nth s n k = slice_start s n + k * slice_step s"

definition in_slice :: "pyslice \<Rightarrow> nat \<Rightarrow> nat \<Rightarrow> bool" where
  "in_slice s n r \<longleftrightarrow>
     slice_start s n \<le> r \<and> r < slice_stop s n \<and> (r - slice_start s n) mod slice_step s = 0"

definition slice_pos :: "pyslice \<Rightarrow> nat \<Rightarrow> nat \<Rightarrow> nat" where
  "slice_pos s n r = (r - slice_start s n) div slice_step s"

text \<open>An axis is indexed by an integer (negative counts from the end) or by a slice.\<close>

datatype pyindex = Idx int | Sl pyslice

fun selects :: "pyindex \<Rightarrow> nat \<Rightarrow> error + (nat \<Rightarrow> bool)" where
  "selects (Idx i) n =
     (if - int n \<le> i \<and> i < int n
      then Inr (\<lambda>r. int r = (if i < 0 then i + int n else i))
      else Inl IndexError)"
| "selects (Sl s) n = Inr (in_slice s n)"

subsection \<open>The numpy operations the source uses\<close>

text \<open>\<open>m[sy, sx]\<close> for two slices: the selected rows and columns, never an error.\<close>

definition getslice :: "ndarray \<Rightarrow> pyslice \<Rightarrow> pyslice \<Rightarrow> ndarray" where
  "getslice m sy sx =
     tabulate (dtype m) (slice_len sy (shape0 m)) (slice_len sx (shape1 m))
       (\<lambda>i j. cell m (slice_nth sy (shape0 m) i) (slice_nth sx (shape1 m) j))"

text \<open>
  Broadcasting of a two-dimensional value of shape \<open>(a, b)\<close> to a target of shape
  \<open>(p, q)\<close>: every axis of the value has the target's length or length one, and an axis
  of length one is repeated.
\<close>

definition broadcastable :: "ndarray \<Rightarrow> nat \<Rightarrow> nat \<Rightarrow> bool" where
  "broadcastable v p q \<longleftrightarrow> (shape0 v = p \<or> shape0 v = 1) \<and> (shape1 v = q \<or> shape1 v = 1)"

definition bat :: "ndarray \<Rightarrow> nat \<Rightarrow> nat \<Rightarrow> scalar" where
  "bat v i j = cell v (if shape0 v = 1 then 0 else i) (if shape1 v = 1 then 0 else j)"

text \<open>\<open>m[sy, sx] = v\<close>: numpy raises when \<open>v\<close> cannot be broadcast to the selection.\<close>

definition setslice :: "ndarray \<Rightarrow> pyslice \<Rightarrow> pyslice \<Rightarrow> ndarray \<Rightarrow> error + ndarray" where
  "setslice m sy sx v =
     (if broadcastable v (slice_len sy (shape0 m)) (slice_len sx (shape1 m))
      then Inr (tabulate (dtype m) (shape0 m) (shape1 m)
             (\<lambda>r c. if in_slice sy (shape0 m) r \<and> in_slice sx (shape1 m) c
                    then astype (dtype v) (dtype m)
                           (bat v (slice_pos sy (shape0 m) r) (slice_pos sx (shape1 m) c))
                    else cell m r c))
      else Inl BroadcastError)"

text \<open>
  \<open>m[yi, xi] = x\<close> for two non-negative integer indices and a Python number: the number
  is converted to the element type, which may raise.
\<close>

definition setcell :: "ndarray \<Rightarrow> nat \<Rightarrow> nat \<Rightarrow> pynum \<Rightarrow> error + ndarray" where
  "setcell m yi xi x =
     (if yi < shape0 m \<and> xi < shape1 m
      then bindE (store_scalar (dtype m) x) (\<lambda>v.
             Inr (tabulate (dtype m) (shape0 m) (shape1 m)
                    (\<lambda>r c. if r = yi \<and> c = xi then v else cell m r c)))
      else Inl IndexError)"

text \<open>
  \<open>out += v\<close> on a float array \<open>out\<close>: the cells of \<open>v\<close> are converted to floats and added
  with rounding.
\<close>

definition iadd :: "ndarray \<Rightarrow> ndarray \<Rightarrow> error + ndarray" where
  "iadd out v =
     (if broadcastable v (shape0 out) (shape1 out)
      then Inr (tabulate (dtype out) (shape0 out) (shape1 out)
             (\<lambda>r c. fadd (cell out r c) (astype (dtype v) FloatT (bat v r c))))
      else Inl BroadcastError)"

text \<open>
  \<open>m / k\<close> for a Python \<open>int\<close> \<open>k\<close>: a new float array, every cell divided by the float of
  \<open>k\<close> with rounding.
\<close>

definition divide_scalar :: "ndarray \<Rightarrow> nat \<Rightarrow> ndarray" where
  "divide_scalar m k =
     tabulate FloatT (shape0 m) (shape1 m)
       (\<lambda>r c. fdiv (astype (dtype m) FloatT (cell m r c)) (round64 (real k)))"

text \<open>
  \<open>m * x\<close> for a Python number \<open>x\<close>: a new array of the promoted type. Between integers
  the product is the integer product (the source multiplies ones only, so nothing
  wraps); otherwise both sides are taken as floats and the product is rounded.
\<close>

definition multiply_scalar :: "ndarray \<Rightarrow> pynum \<Rightarrow> ndarray" where
  "multiply_scalar m x =
     tabulate (promote (dtype m) (pytype x)) (shape0 m) (shape1 m)
       (\<lambda>r c. case (dtype m, x) of
                 (IntT, PyInt i) \<Rightarrow> (case cell m r c of Fin a \<Rightarrow> Fin (a * of_int i) | v \<Rightarrow> v)
               | _ \<Rightarrow> fmul (astype (dtype m) FloatT (cell m r c)) (py_float x))"

text \<open>
  \<open>out[iy, ix] *= rhs\<close> on a float array. Python evaluates the subscripts first (an
  integer index out of range raises there), then the right-hand side, then multiplies
  the selected cells, with rounding.
\<close>

definition imul :: "ndarray \<Rightarrow> pyindex \<Rightarrow> pyindex \<Rightarrow> error + scalar \<Rightarrow> error + ndarray" where
  "imul out iy ix rhs =
     bindE (selects iy (shape0 out)) (\<lambda>py.
     bindE (selects ix (shape1 out)) (\<lambda>px.
     bindE rhs (\<lambda>f.
       Inr (tabulate (dtype out) (shape0 out) (shape1 out)
              (\<lambda>r c. if py r \<and> px c then fmul (cell out r c) f else cell out r c)))))"

text \<open>
  \<open>np.concatenate((a, b), 0)\<close> and \<open>np.concatenate((a, b), 1)\<close>: the cells of both
  blocks converted to the promoted type.
\<close>

definition concatenate0 :: "ndarray \<Rightarrow> ndarray \<Rightarrow> error + ndarray" where
  "concatenate0 a b =
     (if shape1 a = shape1 b
      then Inr (tabulate (promote (dtype a) (dtype b)) (shape0 a + shape0 b) (shape1 a)
             (\<lambda>r c. if r < shape0 a
                    then astype (dtype a) (promote (dtype a) (dtype b)) (cell a r c)
                    else astype (dtype b) (promote (dtype a) (dtype b)) (cell b (r - shape0 a) c)))
      else Inl ConcatenateError)"

definition concatenate1 :: "ndarray \<Rightarrow> ndarray \<Rightarrow> error + ndarray" where
  "concatenate1 a b =
     (if shape0 a = shape0 b
      then Inr (tabulate (promote (dtype a) (dtype b)) (shape0 a) (shape1 a + shape1 b)
             (\<lambda>r c. if c < shape1 a
                    then astype (dtype a) (promote (dtype a) (dtype b)) (cell a r c)
                    else astype (dtype b) (promote (dtype a) (dtype b)) (cell b r (c - shape1 a))))
      else Inl ConcatenateError)"

text \<open>
  Python's true division \<open>a / b\<close> of two ints, which is the exact quotient rounded once,
  and of a float by an int, which divides by the float of the int. The operands are
  scales and pads here. Limits that only scales beyond \<open>2 ^ 63\<close> could reach (numpy's
  bound on a dimension, Python's \<open>OverflowError\<close> for a quotient beyond the float range)
  are not modelled: shapes and scales are unbounded naturals.
\<close>

definition py_truediv :: "int \<Rightarrow> int \<Rightarrow> error + scalar" where
  "py_truediv a b =
     (if b = 0 then Inl ZeroDivisionError else Inr (round64 (of_int a / of_int b)))"

definition py_truediv_float :: "scalar \<Rightarrow> int \<Rightarrow> error + scalar" where
  "py_truediv_float x b =
     (if b = 0 then Inl ZeroDivisionError else Inr (fdiv x (round64 (of_int b))))"

section \<open>\<open>scaleMatrix\<close>\<close>

text \<open>
  \<open>yScale, xScale = scale\<close>, falling back to \<open>scale, scale\<close> when \<open>scale\<close> is not a pair.
\<close>

fun unpack_scale :: "scale_arg \<Rightarrow> pynum \<times> pynum" where
  "unpack_scale (TwoScales y x) = (y, x)"
| "unpack_scale (OneScale k) = (k, k)"

text \<open>
  Scaling up. \<open>out\<close> starts as zeros of the input's type and of shape
  \<open>(rows * yScale, cols * xScale)\<close>; the double loop over the offsets \<open>yo\<close>, \<open>xo\<close> assigns
  the whole input to the strided view \<open>out[yo::yScale, xo::xScale]\<close>. Both scales are
  positive here and are kept as naturals.
\<close>

definition scale_up :: "ndarray \<Rightarrow> nat \<Rightarrow> nat \<Rightarrow> error + ndarray" where
  "scale_up mat yScale xScale =
     foldE (\<lambda>yo. foldE (\<lambda>xo out.
                setslice out (Slice (Some (int yo)) None yScale)
                             (Slice (Some (int xo)) None xScale) mat)
              [0..<xScale])
       [0..<yScale]
       (np_zeros (dtype mat) (shape0 mat * yScale) (shape1 mat * xScale))"

text \<open>
  The amount to pad along an axis of length \<open>n\<close> for the (positive) scale \<open>s\<close>:
  \<open>s - n % s\<close>, reset to \<open>0\<close> when that equals \<open>s\<close>. The remainder is below \<open>s\<close>, so
  the subtraction is the same on naturals as on Python's integers.
\<close>

definition pad_amount :: "nat \<Rightarrow> nat \<Rightarrow> nat" where
  "pad_amount n s = (let p = s - n mod s in if p = s then 0 else p)"

text \<open>
  Lines 210 to 214: the float array \<open>out\<close> to which the strided views
  \<open>mat[yo::yScale, xo::xScale]\<close> are added one after the other, then divided by
  \<open>xScale * yScale\<close>.
\<close>

definition block_sums :: "ndarray \<Rightarrow> nat \<Rightarrow> nat \<Rightarrow> error + ndarray" where
  "block_sums mat yScale xScale =
     foldE (\<lambda>yo. foldE (\<lambda>xo out.
                iadd out (getslice mat (Slice (Some (int yo)) None yScale)
                                       (Slice (Some (int xo)) None xScale)))
              [0..<xScale])
       [0..<yScale]
       (np_zeros FloatT (shape0 mat div yScale) (shape1 mat div xScale))"

definition block_average :: "ndarray \<Rightarrow> nat \<Rightarrow> nat \<Rightarrow> error + ndarray" where
  "block_average mat yScale xScale =
     bindE (block_sums mat yScale xScale) (\<lambda>out. Inr (divide_scalar out (xScale * yScale)))"

text \<open>
  Lines 217 to 219, the edge correction, in the source's order and with the source's
  guards and subscripts: \<open>out[:-1,-1]\<close> under \<open>yPad>0\<close>, \<open>out[-1,:-1]\<close> under \<open>xPad>0\<close>,
  and \<open>out[-1,-1]\<close> under \<open>yPad>0\<close> again.
\<close>

definition correct_edges :: "ndarray \<Rightarrow> nat \<Rightarrow> nat \<Rightarrow> nat \<Rightarrow> nat \<Rightarrow> error + ndarray" where
  "correct_edges out yScale xScale yPad xPad =
     bindE (if yPad > 0
            then imul out (Sl (Slice None (Some (- 1)) 1)) (Idx (- 1))
                   (py_truediv (int yScale) (int yScale - int yPad))
            else Inr out) (\<lambda>out.
     bindE (if xPad > 0
            then imul out (Idx (- 1)) (Sl (Slice None (Some (- 1)) 1))
                   (py_truediv (int xScale) (int xScale - int xPad))
            else Inr out) (\<lambda>out.
     if yPad > 0
     then imul out (Idx (- 1)) (Idx (- 1))
            (bindE (py_truediv (int yScale * int xScale) (int yScale - int yPad))
               (\<lambda>q. py_truediv_float q (int xScale - int xPad)))
     else Inr out))"

text \<open>
  Scaling down, lines 191 to 219, with the negated (now positive) scales. In strict mode
  the dimensions must be multiples of the scales and the pads are zero; otherwise the
  pads are computed and zero rows, then zero columns, are appended (\<open>np.zeros\<close> without a
  type makes floats).
\<close>

definition scale_down :: "ndarray \<Rightarrow> nat \<Rightarrow> nat \<Rightarrow> bool \<Rightarrow> error + ndarray" where
  "scale_down mat yScale xScale strict =
     (if strict then
        (if \<not> (shape0 mat mod yScale = 0 \<and> shape1 mat mod xScale = 0)
         then Inl NonFactorScaleError
         else bindE (block_average mat yScale xScale) (\<lambda>out.
              correct_edges out yScale xScale 0 0))
      else
        (let yPad = pad_amount (shape0 mat) yScale;
             xPad = pad_amount (shape1 mat) xScale
         in bindE (if yPad > 0 then concatenate0 mat (np_zeros FloatT yPad (shape1 mat))
                   else Inr mat) (\<lambda>mat.
            bindE (if xPad > 0 then concatenate1 mat (np_zeros FloatT (shape0 mat) xPad)
                   else Inr mat) (\<lambda>mat.
            bindE (block_average mat yScale xScale) (\<lambda>out.
            correct_edges out yScale xScale yPad xPad)))))"

text \<open>
  The whole function: the integer check, then the chain \<open>if / elif / elif / else\<close> on the
  signs, in the source's order.
\<close>

definition scaleMatrix :: "ndarray \<Rightarrow> scale_arg \<Rightarrow> bool \<Rightarrow> error + ndarray" where
  "scaleMatrix mat scale strict =
     (case unpack_scale scale of
        (PyInt yScale, PyInt xScale) \<Rightarrow>
          if xScale = 0 \<and> yScale = 0 then Inr mat
          else if xScale > 0 \<and> yScale > 0 then scale_up mat (nat yScale) (nat xScale)
          else if xScale < 0 \<and> yScale < 0
               then scale_down mat (nat (- 1 * yScale)) (nat (- 1 * xScale)) strict
          else Inl InvalidScaleDirection
      | _ \<Rightarrow> Inl InvalidScaleType)"

section \<open>\<open>KernelProcessor\<close>\<close>

text \<open>
  The decorated function \<open>wrapper2\<close>, with the decorator's arguments and the kernel as
  parameters. The kernel receives the window and, when \<open>passIndex\<close> is set, the keyword
  arguments \<open>xi\<close> and \<open>yi\<close> (here \<open>Some (xi, yi)\<close>); it is a total function returning a
  Python number, so a kernel that raises, or that writes into the window it is given (a
  view of the padded array), is outside the model. The source's \<open>size\<close> is \<open>ksize\<close>, a natural
  number.
\<close>

definition KernelProcessor ::
  "nat \<Rightarrow> pynum \<Rightarrow> dtype option \<Rightarrow> bool \<Rightarrow> (ndarray \<Rightarrow> (nat \<times> nat) option \<Rightarrow> pynum)
     \<Rightarrow> ndarray \<Rightarrow> error + ndarray" where
  "KernelProcessor ksize edgeValue outputType passIndex kern matrix =
     (let yN = shape0 matrix; xN = shape1 matrix in
      bindE (setslice (multiply_scalar (np_ones (dtype matrix) (yN + 2 * ksize) (xN + 2 * ksize))
                         edgeValue)
               (Slice (Some (int ksize)) (Some (- int ksize)) 1)
               (Slice (Some (int ksize)) (Some (- int ksize)) 1) matrix) (\<lambda>paddedMatrix.
      foldE (\<lambda>yi. foldE (\<lambda>xi output.
                 let slicedMatrix =
                       getslice paddedMatrix
                         (Slice (Some (int yi)) (Some (int (2 * ksize + yi + 1))) 1)
                         (Slice (Some (int xi)) (Some (int (2 * ksize + xi + 1))) 1)
                 in setcell output yi xi
                      (if passIndex then kern slicedMatrix (Some (xi, yi))
                       else kern slicedMatrix None))
               [0..<xN])
        [0..<yN]
        (np_zeros (case outputType of None \<Rightarrow> dtype matrix | Some t \<Rightarrow> t) yN xN)))"

section \<open>Example arrays\<close>

text \<open>The two inputs of the examples in the docstring of \<open>scaleMatrix\<close>.\<close>

definition example_2x2 :: ndarray where
  "example_2x2 = \<lparr>dtype = IntT, shape0 = 2, shape1 = 2,
     cells = [[Fin 1, Fin 2], [Fin 3, Fin 4]]\<rparr>"

definition example_4x4 :: ndarray where
  "example_4x4 = \<lparr>dtype = IntT, shape0 = 4, shape1 = 4,
     cells = [[Fin 1, Fin 1, Fin 1, Fin 1], [Fin 2, Fin 2, Fin 3, Fin 3],
              [Fin 4, Fin 4, Fin 5, Fin 5], [Fin 6, Fin 7, Fin 8, Fin 9]]\<rparr>"

text \<open>A \<open>3 \<times> 2\<close> array of ones and the \<open>1 \<times> 1\<close> array \<open>[[5]]\<close>.\<close>

definition ones_3x2 :: ndarray where
  "ones_3x2 = \<lparr>dtype = IntT, shape0 = 3, shape1 = 2,
     cells = [[Fin 1, Fin 1], [Fin 1, Fin 1], [Fin 1, Fin 1]]\<rparr>"

definition single_5 :: ndarray where
  "single_5 = \<lparr>dtype = IntT, shape0 = 1, shape1 = 1, cells = [[Fin 5]]\<rparr>"

section \<open>Loop invariants\<close>

text \<open>The state of \<open>out\<close> inside the double loop of \<open>scale_up\<close>.\<close>

definition up_inv :: "ndarray \<Rightarrow> nat \<Rightarrow> nat \<Rightarrow> nat \<Rightarrow> nat \<Rightarrow> ndarray \<Rightarrow> bool" where
  "up_inv mat ys xs j k out \<longleftrightarrow>
     dtype out = dtype mat \<and> shape0 out = shape0 mat * ys \<and> shape1 out = shape1 mat * xs \<and>
     wf_array out \<and>
     (\<forall>r < shape0 mat * ys. \<forall>c < shape1 mat * xs.
        cell out r c =
          (if r mod ys < j \<or> (r mod ys = j \<and> c mod xs < k)
           then cell mat (r div ys) (c div xs) else Fin 0))"

text \<open>
  The cells of the \<open>ys \<times> xs\<close> block of \<open>mat\<close> that starts at \<open>(r * ys, c * xs)\<close>, as floats
  and in the order in which the double loop of \<open>block_sums\<close> adds them: row by row.
\<close>

definition block_entry :: "ndarray \<Rightarrow> nat \<Rightarrow> nat \<Rightarrow> nat \<Rightarrow> nat \<Rightarrow> nat \<Rightarrow> nat \<Rightarrow> scalar" where
  "block_entry mat ys xs r c yo xo = astype (dtype mat) FloatT (cell mat (yo + r * ys) (xo + c * xs))"

definition block_row :: "ndarray \<Rightarrow> nat \<Rightarrow> nat \<Rightarrow> nat \<Rightarrow> nat \<Rightarrow> nat \<Rightarrow> scalar list" where
  "block_row mat ys xs r c yo = map (block_entry mat ys xs r c yo) [0..<xs]"

definition block_cells :: "ndarray \<Rightarrow> nat \<Rightarrow> nat \<Rightarrow> nat \<Rightarrow> nat \<Rightarrow> scalar list" where
  "block_cells mat ys xs r c = concat (map (block_row mat ys xs r c) [0..<ys])"

text \<open>The float sum of a list, from zero and from left to right, and the float average of a block.\<close>

definition fsum :: "scalar list \<Rightarrow> scalar" where
  "fsum vs = foldl fadd (Fin 0) vs"

definition block_favg :: "ndarray \<Rightarrow> nat \<Rightarrow> nat \<Rightarrow> nat \<Rightarrow> nat \<Rightarrow> scalar" where
  "block_favg mat ys xs r c = fdiv (fsum (block_cells mat ys xs r c)) (round64 (real (xs * ys)))"

text \<open>The state of \<open>out\<close> inside the double loop of \<open>block_sums\<close>.\<close>

definition down_inv :: "ndarray \<Rightarrow> nat \<Rightarrow> nat \<Rightarrow> nat \<Rightarrow> nat \<Rightarrow> ndarray \<Rightarrow> bool" where
  "down_inv mat ys xs j k out \<longleftrightarrow>
     dtype out = FloatT \<and> shape0 out = shape0 mat div ys \<and> shape1 out = shape1 mat div xs \<and>
     wf_array out \<and>
     (\<forall>r < shape0 mat div ys. \<forall>c < shape1 mat div xs.
        cell out r c =
          fsum (concat (map (block_row mat ys xs r c) [0..<j])
                @ map (block_entry mat ys xs r c j) [0..<k]))"

section \<open>Notions used to state the claims\<close>

text \<open>The real number a finite cell holds.\<close>

fun is_fin :: "scalar \<Rightarrow> bool" where
  "is_fin (Fin x) = True"
| "is_fin v = False"

fun real_of :: "scalar \<Rightarrow> real" where
  "real_of (Fin x) = x"
| "real_of v = 0"

text \<open>
  The cells of the \<open>ys \<times> xs\<close> block of \<open>M\<close> that starts at \<open>(r * ys, c * xs)\<close>, row by row,
  and their arithmetic mean, written from the words of the specification.
\<close>

definition block_raw :: "ndarray \<Rightarrow> nat \<Rightarrow> nat \<Rightarrow> nat \<Rightarrow> nat \<Rightarrow> scalar list" where
  "block_raw M ys xs r c =
     concat (map (\<lambda>yo. map (\<lambda>xo. cell M (yo + r * ys) (xo + c * xs)) [0..<xs]) [0..<ys])"

definition block_mean :: "ndarray \<Rightarrow> nat \<Rightarrow> nat \<Rightarrow> nat \<Rightarrow> nat \<Rightarrow> real" where
  "block_mean M ys xs r c = sum_list (map real_of (block_raw M ys xs r c)) / real (ys * xs)"

text \<open>
  A list of reals sums without rounding, from \<open>acc\<close> and from left to right, when every
  partial sum is representable.
\<close>

fun exact_sums :: "real \<Rightarrow> real list \<Rightarrow> bool" where
  "exact_sums acc [] = True"
| "exact_sums acc (x # xs) = (representable (acc + x) \<and> exact_sums (acc + x) xs)"

text \<open>
  A block averages without a rounding before the division when its cells are finite and
  representable, their partial sums are representable, and so is the number of cells.
\<close>

definition block_exact :: "ndarray \<Rightarrow> nat \<Rightarrow> nat \<Rightarrow> nat \<Rightarrow> nat \<Rightarrow> bool" where
  "block_exact M ys xs r c \<longleftrightarrow>
     list_all (\<lambda>v. is_fin v \<and> representable (real_of v)) (block_raw M ys xs r c) \<and>
     exact_sums 0 (map real_of (block_raw M ys xs r c)) \<and>
     representable (real (xs * ys))"

text \<open>The \<open>1 \<times> 1\<close> integer array \<open>[[2 ^ 53 + 1]]\<close>.\<close>

definition big_1x1 :: ndarray where
  "big_1x1 = \<lparr>dtype = IntT, shape0 = 1, shape1 = 1, cells = [[Fin 9007199254740993]]\<rparr>"




section \<open>Basic facts about the model\<close>

lemma bindE_Inr [simp]: "bindE (Inr x) f = f x"
  by (simp add: bindE_def)

lemma bindE_Inl [simp]: "bindE (Inl e) f = Inl e"
  by (simp add: bindE_def)

lemma bindE_eq_Inr: "bindE m f = Inr y \<longleftrightarrow> (\<exists>x. m = Inr x \<and> f x = Inr y)"
  by (cases m) simp_all

lemma bindE_eq_Inl: "bindE m f = Inl e \<longleftrightarrow> m = Inl e \<or> (\<exists>x. m = Inr x \<and> f x = Inl e)"
  by (cases m) simp_all

lemma foldE_append: "foldE f (xs @ ys) s = bindE (foldE f xs s) (foldE f ys)"
  by (induction xs arbitrary: s) (simp_all split: sum.splits)

lemma foldE_upt_rule:
  assumes init: "I 0 s"
    and step: "\<And>i s. i < n \<Longrightarrow> I i s \<Longrightarrow> \<exists>s'. f i s = Inr s' \<and> I (Suc i) s'"
  shows "\<exists>s'. foldE f [0..<n] s = Inr s' \<and> I n s'"
  using step
proof (induction n)
  case 0
  with init show ?case by simp
next
  case (Suc n)
  from Suc.IH Suc.prems obtain s1 where s1: "foldE f [0..<n] s = Inr s1" "I n s1"
    by (metis less_Suc_eq)
  from Suc.prems [of n s1] s1 obtain s2 where "f n s1 = Inr s2" "I (Suc n) s2"
    by auto
  with s1 show ?case
    by (simp add: foldE_append)
qed

lemma foldE_error:
  "foldE f xs s = Inl e \<Longrightarrow> \<exists>i s'. i \<in> set xs \<and> f i s' = Inl e"
proof (induction xs arbitrary: s)
  case Nil
  then show ?case by simp
next
  case (Cons a xs)
  show ?case
  proof (cases "f a s")
    case (Inl e')
    with Cons.prems show ?thesis by auto
  next
    case (Inr s1)
    with Cons.prems have "foldE f xs s1 = Inl e" by simp
    from Cons.IH [OF this] show ?thesis by auto
  qed
qed

lemma dtype_tabulate [simp]: "dtype (tabulate t r c f) = t"
  and shape0_tabulate [simp]: "shape0 (tabulate t r c f) = r"
  and shape1_tabulate [simp]: "shape1 (tabulate t r c f) = c"
  by (simp_all add: tabulate_def)

lemma cell_tabulate [simp]: "i < r \<Longrightarrow> j < c \<Longrightarrow> cell (tabulate t r c f) i j = f i j"
  by (simp add: tabulate_def cell_def)

lemma wf_tabulate [simp]: "wf_array (tabulate t r c f)"
  by (simp add: wf_array_def tabulate_def list_all_iff)

lemma tabulate_cong:
  "(\<And>i j. i < r \<Longrightarrow> j < c \<Longrightarrow> f i j = g i j) \<Longrightarrow> tabulate t r c f = tabulate t r c g"
  by (simp add: tabulate_def)

lemma wf_array_eqI:
  assumes "wf_array a" "wf_array b" "dtype a = dtype b" "shape0 a = shape0 b" "shape1 a = shape1 b"
    and "\<And>i j. i < shape0 a \<Longrightarrow> j < shape1 a \<Longrightarrow> cell a i j = cell b i j"
    and "ndarray.more a = ndarray.more b"
  shows "a = b"
proof -
  have "cells a = cells b"
  proof (rule nth_equalityI)
    show "length (cells a) = length (cells b)"
      using assms by (simp add: wf_array_def)
  next
    fix i assume i: "i < length (cells a)"
    then have la: "length (cells a ! i) = shape1 a" and lb: "length (cells b ! i) = shape1 b"
      using assms(1,2,4) by (auto simp: wf_array_def list_all_length)
    show "cells a ! i = cells b ! i"
    proof (rule nth_equalityI)
      show "length (cells a ! i) = length (cells b ! i)" using la lb assms(5) by simp
    next
      fix j assume "j < length (cells a ! i)"
      with i la assms(1,6) show "cells a ! i ! j = cells b ! i ! j"
        by (simp add: wf_array_def cell_def)
    qed
  qed
  with assms(3,4,5,7) show ?thesis by simp
qed

lemma less_mult_scale: "yo < st \<Longrightarrow> 0 < R \<Longrightarrow> yo < R * (st::nat)"
  by (cases R) (simp_all add: trans_less_add1)

lemma clamp_bound_int [simp]: "clamp_bound (int k) n = min k n"
  by (simp add: clamp_bound_def)

lemma strided_len:
  assumes "yo < st"
  shows "slice_len (Slice (Some (int yo)) None st) (R * st) = R"
proof (cases "R = 0")
  case True
  with assms show ?thesis by (simp add: slice_len_def)
next
  case False
  with assms have yo: "yo < R * st" by (simp add: less_mult_scale)
  have "R * st - yo + st - 1 = (st - 1 - yo) + R * st"
    using yo assms by simp
  moreover have "((st - 1 - yo) + R * st) div st = R + (st - 1 - yo) div st"
  proof -
    have "st \<noteq> 0" using assms by simp
    then show ?thesis by (rule div_mult_self1)
  qed
  moreover have "(st - 1 - yo) div st = 0"
    using assms by simp
  ultimately have "(R * st - yo + st - 1) div st = R"
    by simp
  then show ?thesis
    using yo by (simp add: slice_len_def min_def)
qed

lemma strided_in:
  assumes "yo < st" "r < R * st"
  shows "in_slice (Slice (Some (int yo)) None st) (R * st) r \<longleftrightarrow> r mod st = yo"
proof -
  have "0 < R" using assms by (cases R) simp_all
  with assms have yo: "yo < R * st" by (simp add: less_mult_scale)
  have "(yo \<le> r \<and> (r - yo) mod st = 0) \<longleftrightarrow> r mod st = yo"
  proof
    assume a: "yo \<le> r \<and> (r - yo) mod st = 0"
    then have "st dvd (r - yo)" by (simp add: dvd_eq_mod_eq_0)
    then obtain k where "r - yo = st * k" by (auto simp: dvd_def)
    with a have "r = yo + st * k" by simp
    with assms show "r mod st = yo" by simp
  next
    assume b: "r mod st = yo"
    then have le: "yo \<le> r" by (metis mod_less_eq_dividend)
    have "r = r div st * st + yo" using b by (metis div_mult_mod_eq)
    then have "r - yo = r div st * st" by simp
    then show "yo \<le> r \<and> (r - yo) mod st = 0" using le by simp
  qed
  with assms yo show ?thesis
    by (simp add: in_slice_def min_def)
qed

lemma strided_pos:
  assumes "r mod st = yo" "r < n"
  shows "slice_pos (Slice (Some (int yo)) None st) n r = r div st"
proof -
  have le: "yo \<le> r" using assms by (metis mod_less_eq_dividend)
  have "r = r div st * st + yo" using assms by (metis div_mult_mod_eq)
  then have "r - yo = r div st * st" by simp
  then have "(r - yo) div st = r div st"
    by (cases "st = 0") simp_all
  with le assms show ?thesis
    by (simp add: slice_pos_def min_def)
qed

lemma strided_nth:
  assumes "yo < st" "k < R"
  shows "slice_nth (Slice (Some (int yo)) None st) (R * st) k = yo + k * st"
proof -
  have "0 < R" using assms by simp
  with assms have "yo < R * st" by (simp add: less_mult_scale)
  then show ?thesis by (simp add: slice_nth_def min_def)
qed

section \<open>Scaling up\<close>

lemma cell_np_zeros [simp]: "i < r \<Longrightarrow> j < c \<Longrightarrow> cell (np_zeros t r c) i j = Fin 0"
  by (simp add: np_zeros_def)

lemma np_zeros_simps [simp]:
  "dtype (np_zeros t r c) = t" "shape0 (np_zeros t r c) = r" "shape1 (np_zeros t r c) = c"
  "wf_array (np_zeros t r c)"
  by (simp_all add: np_zeros_def)

lemma astype_same [simp]: "astype t t x = x"
  by (auto simp: astype_def)

lemma bat_eq_cell: "i < shape0 v \<Longrightarrow> j < shape1 v \<Longrightarrow> bat v i j = cell v i j"
  by (auto simp: bat_def)

lemma up_step:
  assumes inv: "up_inv mat ys xs j k out" and j: "j < ys" and k: "k < xs"
  shows "\<exists>out'. setslice out (Slice (Some (int j)) None ys) (Slice (Some (int k)) None xs) mat
           = Inr out' \<and> up_inv mat ys xs j (Suc k) out'"
proof -
  let ?sy = "Slice (Some (int j)) None ys" and ?sx = "Slice (Some (int k)) None xs"
  let ?R = "shape0 mat * ys" and ?C = "shape1 mat * xs"
  from inv have sh: "dtype out = dtype mat" "shape0 out = ?R" "shape1 out = ?C"
    and cells: "\<And>r c. r < ?R \<Longrightarrow> c < ?C \<Longrightarrow> cell out r c =
          (if r mod ys < j \<or> (r mod ys = j \<and> c mod xs < k)
           then cell mat (r div ys) (c div xs) else Fin 0)"
    by (simp_all add: up_inv_def)
  have len: "slice_len ?sy ?R = shape0 mat" "slice_len ?sx ?C = shape1 mat"
    using j k by (simp_all add: strided_len)
  then have bc: "broadcastable mat (slice_len ?sy (shape0 out)) (slice_len ?sx (shape1 out))"
    by (simp add: broadcastable_def sh)
  let ?out' = "tabulate (dtype out) ?R ?C
             (\<lambda>r c. if in_slice ?sy ?R r \<and> in_slice ?sx ?C c
                    then astype (dtype mat) (dtype out) (bat mat (slice_pos ?sy ?R r) (slice_pos ?sx ?C c))
                    else cell out r c)"
  have eq: "setslice out ?sy ?sx mat = Inr ?out'"
    using bc by (simp add: setslice_def sh cong: if_cong)
  have "up_inv mat ys xs j (Suc k) ?out'"
    unfolding up_inv_def
  proof (intro conjI allI impI)
    fix r c assume r: "r < ?R" and c: "c < ?C"
    have rd: "r div ys < shape0 mat" using r j
      by (simp add: less_mult_imp_div_less)
    have cd: "c div xs < shape1 mat" using c k
      by (simp add: less_mult_imp_div_less)
    show "cell ?out' r c =
          (if r mod ys < j \<or> (r mod ys = j \<and> c mod xs < Suc k)
           then cell mat (r div ys) (c div xs) else Fin 0)"
    proof (cases "r mod ys = j \<and> c mod xs = k")
      case True
      then have "in_slice ?sy ?R r" "in_slice ?sx ?C c"
        using r c j k by (simp_all add: strided_in)
      moreover have "slice_pos ?sy ?R r = r div ys" "slice_pos ?sx ?C c = c div xs"
        using True r c by (simp_all add: strided_pos)
      ultimately show ?thesis
        using r c True rd cd by (simp add: sh bat_eq_cell)
    next
      case False
      then have "\<not> (in_slice ?sy ?R r \<and> in_slice ?sx ?C c)"
        using r c j k by (simp add: strided_in)
      then have "cell ?out' r c = cell out r c"
        using r c by auto
      with False show ?thesis
        using cells [OF r c] by (auto simp: less_Suc_eq)
    qed
  qed (simp_all add: sh)
  with eq show ?thesis by blast
qed

lemma up_inner:
  assumes inv: "up_inv mat ys xs j 0 out" and j: "j < ys"
  shows "\<exists>out'. foldE (\<lambda>xo out. setslice out (Slice (Some (int j)) None ys)
                                    (Slice (Some (int xo)) None xs) mat) [0..<xs] out
           = Inr out' \<and> up_inv mat ys xs (Suc j) 0 out'"
proof -
  have "\<exists>out'. foldE (\<lambda>xo out. setslice out (Slice (Some (int j)) None ys)
                                    (Slice (Some (int xo)) None xs) mat) [0..<xs] out
           = Inr out' \<and> up_inv mat ys xs j xs out'"
    by (rule foldE_upt_rule [where I = "up_inv mat ys xs j"]) (use inv j up_step in auto)
  moreover have "up_inv mat ys xs j xs o' \<Longrightarrow> up_inv mat ys xs (Suc j) 0 o'" for o'
    unfolding up_inv_def
    by (cases "xs = 0") (auto simp: less_Suc_eq)
  ultimately show ?thesis by blast
qed

lemma scale_up_correct:
  "\<exists>out. scale_up mat ys xs = Inr out \<and> dtype out = dtype mat \<and>
           shape0 out = shape0 mat * ys \<and> shape1 out = shape1 mat * xs \<and> wf_array out \<and>
           (\<forall>r < shape0 mat * ys. \<forall>c < shape1 mat * xs.
              cell out r c = cell mat (r div ys) (c div xs))"
proof -
  have init: "up_inv mat ys xs 0 0 (np_zeros (dtype mat) (shape0 mat * ys) (shape1 mat * xs))"
    by (simp add: up_inv_def)
  have "\<exists>out. scale_up mat ys xs = Inr out \<and> up_inv mat ys xs ys 0 out"
    unfolding scale_up_def
    by (rule foldE_upt_rule [where I = "\<lambda>j. up_inv mat ys xs j 0"]) (use init up_inner in auto)
  then obtain out where out: "scale_up mat ys xs = Inr out" "up_inv mat ys xs ys 0 out"
    by blast
  have "r mod ys < ys" if "r < shape0 mat * ys" for r
    using that by (cases "ys = 0") simp_all
  with out(2) have "\<forall>r < shape0 mat * ys. \<forall>c < shape1 mat * xs.
              cell out r c = cell mat (r div ys) (c div xs)"
    by (simp add: up_inv_def)
  with out show ?thesis
    by (simp add: up_inv_def)
qed

section \<open>Claims about scaling up\<close>

text \<open>
  C4. Scaling up by strictly positive factors \<open>(yScale, xScale)\<close> returns normally; the
  result has shape \<open>(rows * yScale, cols * xScale)\<close>, the element type of the input, and
  its cell \<open>(r, c)\<close> is the input's cell \<open>(r // yScale, c // xScale)\<close>.
\<close>

theorem scaleMatrix_up_blocks:
  assumes "0 < yScale" and "0 < xScale"
  shows "\<exists>out. scaleMatrix M (TwoScales (PyInt yScale) (PyInt xScale)) strict = Inr out \<and>
           shape0 out = shape0 M * nat yScale \<and> shape1 out = shape1 M * nat xScale \<and>
           dtype out = dtype M \<and>
           (\<forall>r < shape0 M * nat yScale. \<forall>c < shape1 M * nat xScale.
              cell out r c = cell M (r div nat yScale) (c div nat xScale))"
proof -
  have "scaleMatrix M (TwoScales (PyInt yScale) (PyInt xScale)) strict
          = scale_up M (nat yScale) (nat xScale)"
    using assms by (simp add: scaleMatrix_def)
  then show ?thesis
    using scale_up_correct [of M "nat yScale" "nat xScale"] by auto
qed

theorem scaleMatrix_up_blocks_witness:
  "(0::int) < 2 \<and> (0::int) < 3 \<and>
   (\<exists>out. scaleMatrix example_2x2 (TwoScales (PyInt 2) (PyInt 3)) True = Inr out \<and>
      shape0 out = 4 \<and> shape1 out = 6 \<and> dtype out = IntT \<and>
      cell out 3 2 = cell example_2x2 1 0 \<and> cell out 1 5 = Fin 2)"
proof -
  have sh: "shape0 example_2x2 = 2" "shape1 example_2x2 = 2" "dtype example_2x2 = IntT"
    by (simp_all add: example_2x2_def)
  have c: "cell example_2x2 0 1 = Fin 2"
    by (simp add: example_2x2_def cell_def)
  from scaleMatrix_up_blocks [of 2 3 example_2x2 True]
  obtain out where out: "scaleMatrix example_2x2 (TwoScales (PyInt 2) (PyInt 3)) True = Inr out"
    "shape0 out = 4" "shape1 out = 6" "dtype out = IntT"
    and cells: "\<And>r c. r < 4 \<Longrightarrow> c < 6 \<Longrightarrow> cell out r c = cell example_2x2 (r div 2) (c div 3)"
    by (auto simp: sh)
  have "cell out 3 2 = cell example_2x2 1 0" using cells [of 3 2] by simp
  moreover have "cell out 1 5 = Fin 2" using cells [of 1 5] c by simp
  ultimately show ?thesis using out by simp
qed


section \<open>Block sums and strict down-scaling\<close>

lemma strided_len_dvd:
  assumes "st dvd n" "yo < st"
  shows "slice_len (Slice (Some (int yo)) None st) n = n div st"
  using strided_len [OF assms(2), of "n div st"] assms(1) by simp

lemma strided_nth_dvd:
  assumes "st dvd n" "yo < st" "k < n div st"
  shows "slice_nth (Slice (Some (int yo)) None st) n k = yo + k * st"
  using strided_nth [OF assms(2,3)] assms(1) by simp

lemma fsum_snoc: "fsum (vs @ [v]) = fadd (fsum vs) v"
  by (simp add: fsum_def)

lemma down_step:
  assumes inv: "down_inv mat ys xs j k out" and j: "j < ys" and k: "k < xs"
    and dvd: "ys dvd shape0 mat" "xs dvd shape1 mat"
  shows "\<exists>out'. iadd out (getslice mat (Slice (Some (int j)) None ys)
                                       (Slice (Some (int k)) None xs))
           = Inr out' \<and> down_inv mat ys xs j (Suc k) out'"
proof -
  let ?sy = "Slice (Some (int j)) None ys" and ?sx = "Slice (Some (int k)) None xs"
  let ?R = "shape0 mat div ys" and ?C = "shape1 mat div xs"
  let ?v = "getslice mat ?sy ?sx"
  from inv have sh: "dtype out = FloatT" "shape0 out = ?R" "shape1 out = ?C"
    and cells: "\<And>r c. r < ?R \<Longrightarrow> c < ?C \<Longrightarrow> cell out r c =
          fsum (concat (map (block_row mat ys xs r c) [0..<j])
                @ map (block_entry mat ys xs r c j) [0..<k])"
    by (simp_all add: down_inv_def)
  have vsh: "shape0 ?v = ?R" "shape1 ?v = ?C" "dtype ?v = dtype mat"
    using j k dvd by (simp_all add: getslice_def strided_len_dvd)
  have vcell: "cell ?v r c = cell mat (j + r * ys) (k + c * xs)" if "r < ?R" "c < ?C" for r c
    using that j k dvd by (simp add: getslice_def strided_len_dvd strided_nth_dvd)
  have bc: "broadcastable ?v (shape0 out) (shape1 out)"
    by (simp add: broadcastable_def sh vsh)
  let ?out' = "tabulate (dtype out) (shape0 out) (shape1 out)
                 (\<lambda>r c. fadd (cell out r c) (astype (dtype ?v) FloatT (bat ?v r c)))"
  have eq: "iadd out ?v = Inr ?out'"
    using bc by (simp add: iadd_def)
  have "down_inv mat ys xs j (Suc k) ?out'"
    unfolding down_inv_def
  proof (intro conjI allI impI)
    fix r c assume r: "r < ?R" and c: "c < ?C"
    have "astype (dtype ?v) FloatT (bat ?v r c) = block_entry mat ys xs r c j k"
      using r c vsh vcell by (simp add: bat_eq_cell block_entry_def)
    then show "cell ?out' r c =
          fsum (concat (map (block_row mat ys xs r c) [0..<j])
                @ map (block_entry mat ys xs r c j) [0..<Suc k])"
      using r c cells [OF r c] by (simp add: sh fsum_snoc [symmetric])
  qed (simp_all add: sh)
  with eq show ?thesis by blast
qed

lemma down_inner:
  assumes inv: "down_inv mat ys xs j 0 out" and j: "j < ys"
    and dvd: "ys dvd shape0 mat" "xs dvd shape1 mat"
  shows "\<exists>out'. foldE (\<lambda>xo out. iadd out (getslice mat (Slice (Some (int j)) None ys)
                                       (Slice (Some (int xo)) None xs))) [0..<xs] out
           = Inr out' \<and> down_inv mat ys xs (Suc j) 0 out'"
proof -
  have "\<exists>out'. foldE (\<lambda>xo out. iadd out (getslice mat (Slice (Some (int j)) None ys)
                                       (Slice (Some (int xo)) None xs))) [0..<xs] out
           = Inr out' \<and> down_inv mat ys xs j xs out'"
    by (rule foldE_upt_rule [where I = "down_inv mat ys xs j"]) (use inv j dvd down_step in auto)
  moreover have "down_inv mat ys xs j xs o' \<Longrightarrow> down_inv mat ys xs (Suc j) 0 o'" for o'
    unfolding down_inv_def by (simp add: block_row_def)
  ultimately show ?thesis by blast
qed

lemma block_sums_correct:
  assumes dvd: "ys dvd shape0 mat" "xs dvd shape1 mat"
  shows "\<exists>out. block_sums mat ys xs = Inr out \<and> dtype out = FloatT \<and>
           shape0 out = shape0 mat div ys \<and> shape1 out = shape1 mat div xs \<and> wf_array out \<and>
           (\<forall>r < shape0 mat div ys. \<forall>c < shape1 mat div xs.
              cell out r c = fsum (block_cells mat ys xs r c))"
proof -
  have init: "down_inv mat ys xs 0 0 (np_zeros FloatT (shape0 mat div ys) (shape1 mat div xs))"
    by (simp add: down_inv_def fsum_def)
  have "\<exists>out. block_sums mat ys xs = Inr out \<and> down_inv mat ys xs ys 0 out"
    unfolding block_sums_def
    by (rule foldE_upt_rule [where I = "\<lambda>j. down_inv mat ys xs j 0"])
       (use init dvd down_inner in auto)
  then show ?thesis
    by (auto simp: down_inv_def block_cells_def)
qed

lemma correct_edges_nopad [simp]: "correct_edges out ys xs 0 0 = Inr out"
  by (simp add: correct_edges_def)

lemma block_average_correct:
  assumes dvd: "ys dvd shape0 mat" "xs dvd shape1 mat"
  shows "\<exists>out. block_average mat ys xs = Inr out \<and> dtype out = FloatT \<and>
           shape0 out = shape0 mat div ys \<and> shape1 out = shape1 mat div xs \<and> wf_array out \<and>
           (\<forall>r < shape0 mat div ys. \<forall>c < shape1 mat div xs.
              cell out r c = block_favg mat ys xs r c)"
proof -
  from block_sums_correct [OF dvd] obtain s where s: "block_sums mat ys xs = Inr s"
    "dtype s = FloatT" "shape0 s = shape0 mat div ys" "shape1 s = shape1 mat div xs"
    and cells: "\<And>r c. r < shape0 mat div ys \<Longrightarrow> c < shape1 mat div xs \<Longrightarrow>
              cell s r c = fsum (block_cells mat ys xs r c)"
    by blast
  have "block_average mat ys xs = Inr (divide_scalar s (xs * ys))"
    by (simp add: block_average_def s)
  moreover have "cell (divide_scalar s (xs * ys)) r c = block_favg mat ys xs r c"
    if "r < shape0 mat div ys" "c < shape1 mat div xs" for r c
    using that cells [OF that] by (simp add: divide_scalar_def s block_favg_def)
  ultimately show ?thesis
    by (simp add: divide_scalar_def s)
qed

lemma scale_down_strict_correct:
  assumes dvd: "ys dvd shape0 mat" "xs dvd shape1 mat"
  shows "\<exists>out. scale_down mat ys xs True = Inr out \<and> dtype out = FloatT \<and>
           shape0 out = shape0 mat div ys \<and> shape1 out = shape1 mat div xs \<and> wf_array out \<and>
           (\<forall>r < shape0 mat div ys. \<forall>c < shape1 mat div xs.
              cell out r c = block_favg mat ys xs r c)"
proof -
  from block_average_correct [OF dvd] obtain out where "block_average mat ys xs = Inr out"
    "dtype out = FloatT \<and>
           shape0 out = shape0 mat div ys \<and> shape1 out = shape1 mat div xs \<and> wf_array out \<and>
           (\<forall>r < shape0 mat div ys. \<forall>c < shape1 mat div xs.
              cell out r c = block_favg mat ys xs r c)"
    by blast
  moreover have "shape0 mat mod ys = 0 \<and> shape1 mat mod xs = 0"
    using dvd by (simp add: dvd_eq_mod_eq_0)
  ultimately show ?thesis
    by (simp add: scale_down_def)
qed

lemma scale_down_strict_error:
  assumes "\<not> (ys dvd shape0 mat \<and> xs dvd shape1 mat)"
  shows "scale_down mat ys xs True = Inl NonFactorScaleError"
  using assms by (auto simp: scale_down_def dvd_eq_mod_eq_0)

lemma scaleMatrix_down:
  assumes "yScale < 0" "xScale < 0"
  shows "scaleMatrix M (TwoScales (PyInt yScale) (PyInt xScale)) strict
           = scale_down M (nat (- yScale)) (nat (- xScale)) strict"
  using assms by (simp add: scaleMatrix_def)

section \<open>When the float average is the mean\<close>

lemma block_cells_raw:
  "block_cells M ys xs r c = map (astype (dtype M) FloatT) (block_raw M ys xs r c)"
  by (simp add: block_cells_def block_raw_def block_row_def [abs_def] block_entry_def [abs_def]
      map_concat comp_def)

lemma astype_float_exact:
  assumes "is_fin v" "representable (real_of v)"
  shows "astype t FloatT v = Fin (real_of v)"
  using assms by (cases v; cases t) (simp_all add: astype_def representable_def)

lemma block_cells_exact:
  assumes "list_all (\<lambda>v. is_fin v \<and> representable (real_of v)) (block_raw M ys xs r c)"
  shows "block_cells M ys xs r c = map Fin (map real_of (block_raw M ys xs r c))"
  unfolding block_cells_raw using assms
  by (induction "block_raw M ys xs r c" arbitrary: ) (auto simp: list_all_iff astype_float_exact)

lemma foldl_fadd_exact:
  "exact_sums acc xs \<Longrightarrow> foldl fadd (Fin acc) (map Fin xs) = Fin (acc + sum_list xs)"
  by (induction xs arbitrary: acc) (simp_all add: representable_def add.assoc)

lemma fsum_exact: "exact_sums 0 xs \<Longrightarrow> fsum (map Fin xs) = Fin (sum_list xs)"
  using foldl_fadd_exact [of 0 xs] by (simp add: fsum_def)

lemma block_favg_exact:
  assumes "block_exact M ys xs r c" "0 < ys" "0 < xs"
  shows "block_favg M ys xs r c = round64 (block_mean M ys xs r c)"
proof -
  from assms(1) have a: "block_cells M ys xs r c = map Fin (map real_of (block_raw M ys xs r c))"
    and b: "exact_sums 0 (map real_of (block_raw M ys xs r c))"
    and n: "round64 (real (xs * ys)) = Fin (real (xs * ys))"
    by (simp_all add: block_exact_def block_cells_exact representable_def)
  have "real (xs * ys) \<noteq> 0" using assms(2,3) by simp
  then show ?thesis
    unfolding block_favg_def a fsum_exact [OF b] n block_mean_def
    by (simp add: mult.commute)
qed

section \<open>Claims about strict down-scaling\<close>

text \<open>
  C5 as stated fails: for the integer array \<open>[[2 ^ 53 + 1]]\<close> scaled by \<open>(-1, -1)\<close> the
  arithmetic mean of the only block is \<open>2 ^ 53 + 1\<close>, and the code returns \<open>2 ^ 53\<close>,
  because the sum is accumulated in floats.
\<close>

theorem scaleMatrix_down_strict_counterexample:
  "scaleMatrix big_1x1 (TwoScales (PyInt (- 1)) (PyInt (- 1))) True
     = Inr \<lparr>dtype = FloatT, shape0 = 1, shape1 = 1, cells = [[Fin 9007199254740992]]\<rparr> \<and>
   block_mean big_1x1 1 1 0 0 = 9007199254740993"
  by code_simp

text \<open>
  C5, as amended. Strict down-scaling by factors whose absolute values divide the
  dimensions returns a float array of shape \<open>(rows / yScale, cols / xScale)\<close>, whatever
  the element type of the input. Its cell \<open>(r, c)\<close> is the float average of the input
  block starting at \<open>(r * yScale, c * xScale)\<close>: the cells, as floats, added row by row
  with a rounding after each addition, and the sum divided by \<open>yScale * xScale\<close>. It is
  the arithmetic mean of the block, rounded once, whenever the block's cells are finite
  and representable and so are their partial sums and the number of cells.
\<close>

theorem scaleMatrix_down_strict_means:
  assumes "yScale < 0" and "xScale < 0"
    and "nat (- yScale) dvd shape0 M" and "nat (- xScale) dvd shape1 M"
  shows "\<exists>out. scaleMatrix M (TwoScales (PyInt yScale) (PyInt xScale)) True = Inr out \<and>
           shape0 out = shape0 M div nat (- yScale) \<and>
           shape1 out = shape1 M div nat (- xScale) \<and>
           dtype out = FloatT \<and>
           (\<forall>r < shape0 M div nat (- yScale). \<forall>c < shape1 M div nat (- xScale).
              cell out r c = block_favg M (nat (- yScale)) (nat (- xScale)) r c \<and>
              (block_exact M (nat (- yScale)) (nat (- xScale)) r c \<longrightarrow>
                 cell out r c = round64 (block_mean M (nat (- yScale)) (nat (- xScale)) r c)))"
proof -
  have pos: "0 < nat (- yScale)" "0 < nat (- xScale)" using assms by simp_all
  from scale_down_strict_correct [OF assms(3,4)] scaleMatrix_down [OF assms(1,2), of M True]
  show ?thesis
    using block_favg_exact [OF _ pos] by auto
qed

theorem scaleMatrix_down_strict_means_witness:
  "(- 2::int) < 0 \<and> nat (- (- 2)) dvd shape0 example_4x4 \<and> nat (- (- 2)) dvd shape1 example_4x4 \<and>
   dtype example_4x4 = IntT \<and> block_exact example_4x4 2 2 1 0 \<and>
   (\<exists>out. scaleMatrix example_4x4 (TwoScales (PyInt (- 2)) (PyInt (- 2))) True = Inr out \<and>
      shape0 out = 2 \<and> shape1 out = 2 \<and> dtype out = FloatT \<and>
      cell out 1 0 = block_favg example_4x4 2 2 1 0 \<and> cell out 1 0 = Fin (21 / 4))"
proof -
  have sh: "shape0 example_4x4 = 4" "shape1 example_4x4 = 4" "dtype example_4x4 = IntT"
    by (simp_all add: example_4x4_def)
  have ex: "block_exact example_4x4 2 2 (Suc 0) 0"
    by code_simp
  have bm: "round64 (block_mean example_4x4 2 2 (Suc 0) 0) = Fin (21 / 4)"
    by code_simp
  have h: "(- 2::int) < 0" "nat (- (- 2)) dvd shape0 example_4x4"
    "nat (- (- 2)) dvd shape1 example_4x4"
    by (simp_all add: sh)
  from scaleMatrix_down_strict_means [OF h(1) h(1) h(2) h(3)]
  obtain out where out: "scaleMatrix example_4x4 (TwoScales (PyInt (- 2)) (PyInt (- 2))) True = Inr out"
    "shape0 out = 2" "shape1 out = 2" "dtype out = FloatT"
    and cells: "\<And>r c. r < 2 \<Longrightarrow> c < 2 \<Longrightarrow> cell out r c = block_favg example_4x4 2 2 r c \<and>
              (block_exact example_4x4 2 2 r c \<longrightarrow>
                 cell out r c = round64 (block_mean example_4x4 2 2 r c))"
    by (auto simp: sh)
  have ex1: "block_exact example_4x4 2 2 1 0" using ex by simp
  have bm1: "round64 (block_mean example_4x4 2 2 1 0) = Fin (21 / 4)" using bm by simp
  have lt: "1 < (2::nat)" "0 < (2::nat)" by simp_all
  from cells [OF lt] have c1: "cell out 1 0 = block_favg example_4x4 2 2 1 0"
    and c2: "block_exact example_4x4 2 2 1 0 \<longrightarrow>
               cell out 1 0 = round64 (block_mean example_4x4 2 2 1 0)"
    by blast+
  from c2 ex1 have "cell out 1 0 = round64 (block_mean example_4x4 2 2 1 0)" by blast
  then have "cell out 1 0 = Fin (21 / 4)" by (simp only: bm1)
  with c1 have "cell out 1 0 = block_favg example_4x4 2 2 1 0 \<and> cell out 1 0 = Fin (21 / 4)"
    by blast
  with out have "\<exists>out. scaleMatrix example_4x4 (TwoScales (PyInt (- 2)) (PyInt (- 2))) True = Inr out \<and>
      shape0 out = 2 \<and> shape1 out = 2 \<and> dtype out = FloatT \<and>
      cell out 1 0 = block_favg example_4x4 2 2 1 0 \<and> cell out 1 0 = Fin (21 / 4)"
    by blast
  with ex1 h sh show ?thesis by blast
qed

section \<open>Padding, and claims about strict and lenient down-scaling\<close>

lemma pad_amount_less: "0 < s \<Longrightarrow> pad_amount n s < s"
  by (auto simp: pad_amount_def Let_def)

lemma pad_amount_dvd: "0 < s \<Longrightarrow> s dvd n \<Longrightarrow> pad_amount n s = 0"
  by (simp add: pad_amount_def dvd_eq_mod_eq_0)

lemma pad_amount_one [simp]: "pad_amount n (Suc 0) = 0"
  by (simp add: pad_amount_def)

lemma pad_amount_multiple: "0 < s \<Longrightarrow> s dvd n + pad_amount n s"
proof -
  assume s: "0 < s"
  show ?thesis
  proof (cases "n mod s = 0")
    case True
    then show ?thesis by (simp add: pad_amount_def dvd_eq_mod_eq_0)
  next
    case False
    then have p: "pad_amount n s = s - n mod s"
      by (auto simp: pad_amount_def Let_def)
    have "n mod s < s" using s by simp
    then have "n + (s - n mod s) = n div s * s + s"
      by (metis add.assoc div_mult_mod_eq le_add_diff_inverse less_imp_le)
    then show ?thesis using p by simp
  qed
qed

lemma scale_down_lenient_divisible:
  assumes "0 < ys" "0 < xs" "ys dvd shape0 mat" "xs dvd shape1 mat"
  shows "scale_down mat ys xs False = scale_down mat ys xs True"
  using assms by (simp add: scale_down_def pad_amount_dvd dvd_eq_mod_eq_0)

text \<open>
  C6. With negative factors and \<open>strict\<close> set, \<open>scaleMatrix\<close> raises the error "Matrix
  can only be scaled down by a factor of its dimensions" exactly when the absolute
  y-factor does not divide the number of rows or the absolute x-factor does not divide the
  number of columns; so it does for the factors \<open>(-3, -1)\<close> on any array of four rows.
\<close>

theorem scaleMatrix_strict_nonfactor:
  "(yScale < 0 \<and> xScale < 0 \<longrightarrow>
      (scaleMatrix M (TwoScales (PyInt yScale) (PyInt xScale)) True = Inl NonFactorScaleError
        \<longleftrightarrow> \<not> nat (- yScale) dvd shape0 M \<or> \<not> nat (- xScale) dvd shape1 M)) \<and>
   (shape0 M = 4 \<longrightarrow>
      scaleMatrix M (TwoScales (PyInt (- 3)) (PyInt (- 1))) True = Inl NonFactorScaleError)"
proof (intro conjI impI)
  assume neg: "yScale < 0 \<and> xScale < 0"
  let ?ys = "nat (- yScale)" and ?xs = "nat (- xScale)"
  have eq: "scaleMatrix M (TwoScales (PyInt yScale) (PyInt xScale)) True
              = scale_down M ?ys ?xs True"
    using neg by (simp add: scaleMatrix_down)
  show "scaleMatrix M (TwoScales (PyInt yScale) (PyInt xScale)) True = Inl NonFactorScaleError
        \<longleftrightarrow> \<not> ?ys dvd shape0 M \<or> \<not> ?xs dvd shape1 M"
  proof (cases "?ys dvd shape0 M \<and> ?xs dvd shape1 M")
    case True
    then obtain out where "scale_down M ?ys ?xs True = Inr out"
      using scale_down_strict_correct [of ?ys M ?xs] by blast
    with True eq show ?thesis by simp
  next
    case False
    then show ?thesis using eq scale_down_strict_error [of ?ys M ?xs] by auto
  qed
next
  assume "shape0 M = 4"
  then have "\<not> (nat 3 dvd shape0 M \<and> nat 1 dvd shape1 M)" by simp
  then have "scale_down M (nat 3) (nat 1) True = Inl NonFactorScaleError"
    by (rule scale_down_strict_error)
  then show "scaleMatrix M (TwoScales (PyInt (- 3)) (PyInt (- 1))) True = Inl NonFactorScaleError"
    by (simp add: scaleMatrix_def)
qed

theorem scaleMatrix_strict_nonfactor_witness:
  "(- 3::int) < 0 \<and> (- 1::int) < 0 \<and> (- 2::int) < 0 \<and> shape0 example_4x4 = 4 \<and>
   \<not> nat (- (- 3)) dvd shape0 example_4x4 \<and>
   scaleMatrix example_4x4 (TwoScales (PyInt (- 3)) (PyInt (- 1))) True = Inl NonFactorScaleError \<and>
   nat (- (- 2)) dvd shape0 example_4x4 \<and> nat (- (- 2)) dvd shape1 example_4x4 \<and>
   scaleMatrix example_4x4 (TwoScales (PyInt (- 2)) (PyInt (- 2))) True \<noteq> Inl NonFactorScaleError"
proof -
  have sh: "shape0 example_4x4 = 4" "shape1 example_4x4 = 4"
    by (simp_all add: example_4x4_def)
  have a: "scaleMatrix example_4x4 (TwoScales (PyInt (- 3)) (PyInt (- 1))) True
             = Inl NonFactorScaleError"
    using scaleMatrix_strict_nonfactor [of "- 3" "- 1" example_4x4] sh by simp
  have b: "scaleMatrix example_4x4 (TwoScales (PyInt (- 2)) (PyInt (- 2))) True
             \<noteq> Inl NonFactorScaleError"
    using scaleMatrix_strict_nonfactor [of "- 2" "- 2" example_4x4] sh by simp
  from a b sh show ?thesis by simp
qed

text \<open>
  C10. When the absolute factors divide the dimensions, both pads are zero and lenient
  down-scaling returns what strict down-scaling returns: the array of float block
  averages, with nothing appended and nothing corrected.
\<close>

theorem scaleMatrix_lenient_eq_strict:
  assumes "yScale < 0" and "xScale < 0"
    and "nat (- yScale) dvd shape0 M" and "nat (- xScale) dvd shape1 M"
  shows "pad_amount (shape0 M) (nat (- yScale)) = 0 \<and>
         pad_amount (shape1 M) (nat (- xScale)) = 0 \<and>
         scaleMatrix M (TwoScales (PyInt yScale) (PyInt xScale)) False
           = scaleMatrix M (TwoScales (PyInt yScale) (PyInt xScale)) True \<and>
         (\<exists>out. scaleMatrix M (TwoScales (PyInt yScale) (PyInt xScale)) False = Inr out \<and>
            shape0 out = shape0 M div nat (- yScale) \<and>
            shape1 out = shape1 M div nat (- xScale) \<and>
            (\<forall>r < shape0 M div nat (- yScale). \<forall>c < shape1 M div nat (- xScale).
               cell out r c = block_favg M (nat (- yScale)) (nat (- xScale)) r c))"
proof -
  let ?ys = "nat (- yScale)" and ?xs = "nat (- xScale)"
  have pos: "0 < ?ys" "0 < ?xs" using assms by simp_all
  have eq: "scale_down M ?ys ?xs False = scale_down M ?ys ?xs True"
    using pos assms(3,4) by (rule scale_down_lenient_divisible)
  from scale_down_strict_correct [OF assms(3,4)] eq pos assms show ?thesis
    by (auto simp: scaleMatrix_down pad_amount_dvd)
qed

theorem scaleMatrix_lenient_eq_strict_witness:
  "(- 2::int) < 0 \<and> nat (- (- 2)) dvd shape0 example_4x4 \<and> nat (- (- 2)) dvd shape1 example_4x4 \<and>
   pad_amount (shape0 example_4x4) (nat (- (- 2))) = 0 \<and>
   scaleMatrix example_4x4 (TwoScales (PyInt (- 2)) (PyInt (- 2))) False
     = scaleMatrix example_4x4 (TwoScales (PyInt (- 2)) (PyInt (- 2))) True \<and>
   scaleMatrix example_4x4 (TwoScales (PyInt (- 2)) (PyInt (- 2))) False
     = Inr \<lparr>dtype = FloatT, shape0 = 2, shape1 = 2, cells = [[Fin (3 / 2), Fin 2], [Fin (21 / 4), Fin (27 / 4)]]\<rparr>"
proof -
  have sh: "shape0 example_4x4 = 4" "shape1 example_4x4 = 4"
    by (simp_all add: example_4x4_def)
  have h: "(- 2::int) < 0" "nat (- (- 2)) dvd shape0 example_4x4"
    "nat (- (- 2)) dvd shape1 example_4x4"
    by (simp_all add: sh)
  have v: "scaleMatrix example_4x4 (TwoScales (PyInt (- 2)) (PyInt (- 2))) False
     = Inr \<lparr>dtype = FloatT, shape0 = 2, shape1 = 2, cells = [[Fin (3 / 2), Fin 2], [Fin (21 / 4), Fin (27 / 4)]]\<rparr>"
    by code_simp
  from scaleMatrix_lenient_eq_strict [OF h(1) h(1) h(2) h(3)] v h show ?thesis
    by simp
qed

section \<open>Round trip\<close>









section \<open>Which errors can be raised\<close>

lemma iadd_error: "iadd a b = Inl e \<Longrightarrow> e = BroadcastError"
  by (auto simp: iadd_def split: if_splits)

lemma block_sums_error:
  assumes "block_sums mat ys xs = Inl e"
  shows "e = BroadcastError"
proof -
  from assms obtain yo s where
    "foldE (\<lambda>xo out. iadd out (getslice mat (Slice (Some (int yo)) None ys)
                                 (Slice (Some (int xo)) None xs))) [0..<xs] s = Inl e"
    unfolding block_sums_def by (blast dest: foldE_error)
  then obtain xo s' where
    "iadd s' (getslice mat (Slice (Some (int yo)) None ys) (Slice (Some (int xo)) None xs)) = Inl e"
    by (blast dest: foldE_error)
  then show ?thesis by (rule iadd_error)
qed

lemma block_average_error: "block_average mat ys xs = Inl e \<Longrightarrow> e = BroadcastError"
  by (auto simp: block_average_def bindE_eq_Inl dest: block_sums_error)

lemma selects_error: "selects i n = Inl e \<Longrightarrow> e = IndexError"
  by (cases i) (auto split: if_splits)

lemma imul_error: "imul out iy ix rhs = Inl e \<Longrightarrow> e = IndexError \<or> rhs = Inl e"
  by (auto simp: imul_def bindE_eq_Inl dest: selects_error)

lemma py_truediv_error: "py_truediv a b = Inl e \<Longrightarrow> e = ZeroDivisionError"
  by (auto simp: py_truediv_def split: if_splits)

lemma py_truediv_float_error: "py_truediv_float a b = Inl e \<Longrightarrow> e = ZeroDivisionError"
  by (auto simp: py_truediv_float_def split: if_splits)

lemma correct_edges_error:
  assumes "correct_edges out ys xs yPad xPad = Inl e"
  shows "e = IndexError \<or> e = ZeroDivisionError"
  using assms unfolding correct_edges_def
  by (auto simp: bindE_eq_Inl split: if_splits
      dest!: imul_error dest: py_truediv_error py_truediv_float_error)

lemma concatenate_error:
  "concatenate0 a b = Inl e \<Longrightarrow> e = ConcatenateError"
  "concatenate1 a b = Inl e \<Longrightarrow> e = ConcatenateError"
  by (auto simp: concatenate0_def concatenate1_def split: if_splits)

lemma scale_down_error:
  assumes "scale_down mat ys xs strict = Inl e"
  shows "e \<noteq> InvalidScaleDirection \<and> e \<noteq> InvalidScaleType"
  using assms unfolding scale_down_def Let_def
  by (auto simp: bindE_eq_Inl split: if_splits
      dest: block_average_error correct_edges_error concatenate_error)

lemma scale_up_total: "\<exists>out. scale_up mat ys xs = Inr out"
  using scale_up_correct [of mat ys xs] by blast

text \<open>
  C3, as amended. \<open>scaleMatrix\<close> raises the error "Dimensions must be scaled in the same
  direction" exactly when the two integer components do not have the same sign, that is
  unless both are zero, both strictly positive or both strictly negative. A pair with
  exactly one zero component, such as \<open>(0, 2)\<close>, therefore raises it.
\<close>

theorem scaleMatrix_direction_error:
  "scaleMatrix M (TwoScales (PyInt yScale) (PyInt xScale)) strict = Inl InvalidScaleDirection
     \<longleftrightarrow> sgn yScale \<noteq> sgn xScale"
proof -
  consider (zero) "xScale = 0 \<and> yScale = 0" | (up) "xScale > 0 \<and> yScale > 0"
    | (down) "xScale < 0 \<and> yScale < 0"
    | (mixed) "\<not> (xScale = 0 \<and> yScale = 0)" "\<not> (xScale > 0 \<and> yScale > 0)"
        "\<not> (xScale < 0 \<and> yScale < 0)"
    by blast
  then show ?thesis
  proof cases
    case zero
    then show ?thesis by (simp add: scaleMatrix_def)
  next
    case up
    then have "scaleMatrix M (TwoScales (PyInt yScale) (PyInt xScale)) strict
                 = scale_up M (nat yScale) (nat xScale)"
      by (simp add: scaleMatrix_def)
    with scale_up_total [of M "nat yScale" "nat xScale"] up show ?thesis
      by auto
  next
    case down
    then have "scaleMatrix M (TwoScales (PyInt yScale) (PyInt xScale)) strict
                 = scale_down M (nat (- yScale)) (nat (- xScale)) strict"
      by (simp add: scaleMatrix_down)
    with scale_down_error [of M "nat (- yScale)" "nat (- xScale)" strict] down show ?thesis
      by auto
  next
    case mixed
    then have "scaleMatrix M (TwoScales (PyInt yScale) (PyInt xScale)) strict
                 = Inl InvalidScaleDirection"
      by (auto simp: scaleMatrix_def)
    moreover from mixed have "sgn yScale \<noteq> sgn xScale"
      by (auto simp: sgn_if split: if_splits)
    ultimately show ?thesis by simp
  qed
qed

theorem scaleMatrix_direction_error_witness:
  "scaleMatrix example_2x2 (TwoScales (PyInt 2) (PyInt (- 2))) True = Inl InvalidScaleDirection \<and>
   scaleMatrix example_2x2 (TwoScales (PyInt 0) (PyInt 2)) True = Inl InvalidScaleDirection \<and>
   scaleMatrix example_2x2 (TwoScales (PyInt 2) (PyInt 2)) True \<noteq> Inl InvalidScaleDirection"
  using scaleMatrix_direction_error [of example_2x2 2 "- 2" True]
    scaleMatrix_direction_error [of example_2x2 0 2 True]
    scaleMatrix_direction_error [of example_2x2 2 2 True]
  by simp

text \<open>
  C3 as stated fails: the pair \<open>(0, 2)\<close> has no strictly negative component, and still
  raises the error.
\<close>

theorem scaleMatrix_direction_counterexample:
  "scaleMatrix example_2x2 (TwoScales (PyInt 0) (PyInt 2)) True = Inl InvalidScaleDirection \<and>
   \<not> ((0::int) < 0 \<and> (0::int) < 2 \<or> (0::int) < 0 \<and> (2::int) < 0
       \<or> (0::int) > 0 \<and> (2::int) < 0 \<or> (0::int) < 0 \<and> (2::int) > 0)"
  by (simp add: scaleMatrix_def)

end
